theory Spec2Isabelle
  imports Main "HOL-Library.Char_ord" "HOL-Library.List_Lexorder" "HOL-Library.Option_ord"
begin

section \<open>Data model (App/models.py)\<close>

text \<open>
  Each table is a list of rows in insertion order, each row a record of its columns.
  Column names carry the initial of their table (\<open>p_title\<close> is \<open>Post.title\<close>), since
  several tables share the names \<open>id\<close>, \<open>post_id\<close>, \<open>author_id\<close>, \<open>created_at\<close> and
  \<open>is_active\<close>. Integer columns are Python's unbounded \<open>int\<close>; a \<open>DateTime\<close> is the
  number of microseconds since the epoch; a column that may hold \<open>NULL\<close> and whose
  \<open>NULL\<close> the code tests is an \<open>option\<close>. A string is a list of characters with code
  points below 256.
\<close>

record user =
  u_id :: int
  u_username :: string
  u_email :: string
  u_password_hash :: string
  u_created_at :: int
  u_is_active :: "bool option"

record post =
  p_id :: int
  p_title :: string
  p_body :: string
  p_author :: string
  p_author_id :: "int option"
  p_published_at :: int
  p_updated_at :: int
  p_is_published :: "bool option"

record vote =
  v_id :: int
  v_user_id :: int
  v_post_id :: int
  v_vote_type :: bool
  v_created_at :: int

record comment =
  c_id :: int
  c_content :: string
  c_author_id :: int
  c_post_id :: int
  c_created_at :: int
  c_updated_at :: int
  c_is_active :: "bool option"

record store =
  users :: "user list"
  posts :: "post list"
  votes :: "vote list"
  comments :: "comment list"

text \<open>
  What a service returns beside its result: the fixed message it chose, or \<open>str(e)\<close> of
  the exception its \<open>except Exception\<close> clause caught.
\<close>

datatype exn = AttributeError | ArgumentError

datatype error = Msg string | Str_of exn

subsection \<open>Database primitives\<close>

text \<open>
  An integer primary key left out of an \<open>INSERT\<close> is one more than the largest key of the
  table, and 1 in an empty table (the configured database is SQLite).
\<close>

definition fresh_id :: "int list \<Rightarrow> int" where
  "fresh_id ids = fold max ids 0 + 1"

text \<open>\<open>Post.query.get(post_id)\<close>: the row with that primary key.\<close>

definition query_get_post :: "store \<Rightarrow> int \<Rightarrow> post option" where
  "query_get_post s post_id = find (\<lambda>p. p_id p = post_id) (posts s)"

text \<open>\<open>Vote.query.filter_by(user_id=user_id, post_id=post_id).first()\<close>\<close>

definition first_vote :: "store \<Rightarrow> int \<Rightarrow> int \<Rightarrow> vote option" where
  "first_vote s user_id post_id =
     find (\<lambda>v. v_user_id v = user_id \<and> v_post_id v = post_id) (votes s)"

text \<open>
  \<open>db.session.add(vote)\<close> followed by the flush: the row is appended under a fresh key,
  unless the constraint \<open>unique_user_post_vote\<close> on \<open>(user_id, post_id)\<close> rejects it
  (\<open>None\<close> stands for the \<open>IntegrityError\<close>).
\<close>

definition insert_vote :: "int \<Rightarrow> store \<Rightarrow> int \<Rightarrow> int \<Rightarrow> bool \<Rightarrow> store option" where
  "insert_vote now s user_id post_id vote_type =
     (if first_vote s user_id post_id \<noteq> None then None
      else Some (s\<lparr>votes := votes s @
             [\<lparr>v_id = fresh_id (map v_id (votes s)), v_user_id = user_id,
               v_post_id = post_id, v_vote_type = vote_type, v_created_at = now\<rparr>]\<rparr>))"

text \<open>\<open>db.session.delete(existing_vote)\<close>: \<open>DELETE\<close> by primary key.\<close>

definition delete_vote :: "store \<Rightarrow> vote \<Rightarrow> store" where
  "delete_vote s existing_vote =
     s\<lparr>votes := filter (\<lambda>v. v_id v \<noteq> v_id existing_vote) (votes s)\<rparr>"

text \<open>\<open>existing_vote.vote_type = vote_type\<close>: \<open>UPDATE\<close> by primary key.\<close>

definition set_vote_type :: "store \<Rightarrow> vote \<Rightarrow> bool \<Rightarrow> store" where
  "set_vote_type s existing_vote vote_type =
     s\<lparr>votes := map (\<lambda>v. if v_id v = v_id existing_vote
                          then v\<lparr>v_vote_type := vote_type\<rparr> else v) (votes s)\<rparr>"

subsection \<open>Derived fields of a post\<close>

definition upvotes :: "store \<Rightarrow> post \<Rightarrow> int" where
  "upvotes s self =
     int (length (filter (\<lambda>v. v_post_id v = p_id self \<and> v_vote_type v) (votes s)))"

definition downvotes :: "store \<Rightarrow> post \<Rightarrow> int" where
  "downvotes s self =
     int (length (filter (\<lambda>v. v_post_id v = p_id self \<and> \<not> v_vote_type v) (votes s)))"

definition vote_score :: "store \<Rightarrow> post \<Rightarrow> int" where
  "vote_score s self = upvotes s self - downvotes s self"

definition comment_count :: "store \<Rightarrow> post \<Rightarrow> int" where
  "comment_count s self =
     int (length (filter (\<lambda>c. c_post_id c = p_id self) (comments s)))"

text \<open>
  The dictionary of \<open>Post.to_dict()\<close>; \<open>d_vote_action\<close> is the key \<open>vote_action\<close> that
  \<open>vote_post\<close> adds, absent (\<open>None\<close>) until then.
\<close>

record post_dict =
  d_id :: int
  d_title :: string
  d_body :: string
  d_author :: string
  d_author_id :: "int option"
  d_published_at :: int
  d_updated_at :: int
  d_is_published :: "bool option"
  d_comment_count :: int
  d_upvotes :: int
  d_downvotes :: int
  d_vote_score :: int
  d_vote_action :: "string option"

definition to_dict :: "store \<Rightarrow> post \<Rightarrow> post_dict" where
  "to_dict s self =
     \<lparr>d_id = p_id self, d_title = p_title self, d_body = p_body self,
      d_author = p_author self, d_author_id = p_author_id self,
      d_published_at = p_published_at self, d_updated_at = p_updated_at self,
      d_is_published = p_is_published self, d_comment_count = comment_count s self,
      d_upvotes = upvotes s self, d_downvotes = downvotes s self,
      d_vote_score = vote_score s self, d_vote_action = None\<rparr>"

section \<open>VoteService (App/services.py)\<close>

text \<open>
  A service takes the store and returns its result with the store it leaves. \<open>Inr r\<close> is
  Python's \<open>(r, None)\<close>, \<open>Inl e\<close> is \<open>(None, e)\<close>. \<open>now\<close> is the clock read by the column
  defaults.
\<close>

definition vote_post :: "int \<Rightarrow> store \<Rightarrow> int \<Rightarrow> int \<Rightarrow> bool \<Rightarrow> (error + post_dict) \<times> store" where
  "vote_post now s user_id post_id vote_type =
     (case query_get_post s post_id of
        None \<Rightarrow> (Inl (Msg ''Post not found''), s)
      | Some post \<Rightarrow>
          (case first_vote s user_id post_id of
             Some existing_vote \<Rightarrow>
               if v_vote_type existing_vote = vote_type
               then let s' = delete_vote s existing_vote
                    in (Inr ((to_dict s' post)\<lparr>d_vote_action := Some ''removed''\<rparr>), s')
               else let s' = set_vote_type s existing_vote vote_type
                    in (Inr ((to_dict s' post)\<lparr>d_vote_action := Some ''updated''\<rparr>), s')
           | None \<Rightarrow>
               (case insert_vote now s user_id post_id vote_type of
                  None \<Rightarrow> (Inl (Msg ''Voting conflict occurred, please try again''), s)
                | Some s' \<Rightarrow>
                    (Inr ((to_dict s' post)\<lparr>d_vote_action := Some ''added''\<rparr>), s'))))"

text \<open>\<open>VoteService.get_user_vote_on_post\<close>\<close>

definition get_user_vote_on_post :: "store \<Rightarrow> int \<Rightarrow> int \<Rightarrow> error + vote option" where
  "get_user_vote_on_post s user_id post_id = Inr (first_vote s user_id post_id)"


section \<open>Strings\<close>

text \<open>
  \<open>str.isspace\<close> on the code points below 256: tab to carriage return, the four
  separators \<open>0x1c\<close> to \<open>0x1f\<close>, the space, \<open>0x85\<close> and the no-break space.
\<close>

definition is_space :: "char \<Rightarrow> bool" where
  "is_space c = ((of_char c :: nat) \<in> {9, 10, 11, 12, 13, 28, 29, 30, 31, 32, 133, 160})"

text \<open>\<open>str.strip()\<close>: whitespace is dropped at both ends.\<close>

definition strip :: "string \<Rightarrow> string" where
  "strip t = rev (dropWhile is_space (rev (dropWhile is_space t)))"

text \<open>
  \<open>str.lower()\<close> on the code points below 256: the letters \<open>A\<close> to \<open>Z\<close> and the
  accented capitals \<open>0xc0\<close> to \<open>0xde\<close> (the multiplication sign \<open>0xd7\<close> apart) move up
  by 32.
\<close>

definition lower_char :: "char \<Rightarrow> char" where
  "lower_char c =
     (let n = (of_char c :: nat)
      in if (65 \<le> n \<and> n \<le> 90) \<or> (192 \<le> n \<and> n \<le> 222 \<and> n \<noteq> 215)
         then char_of (n + 32) else c)"

definition lower :: "string \<Rightarrow> string" where
  "lower t = map lower_char t"

text \<open>SQLite folds the case of the 26 ASCII letters only.\<close>

definition sql_lower_char :: "char \<Rightarrow> char" where
  "sql_lower_char c =
     (let n = (of_char c :: nat)
      in if 65 \<le> n \<and> n \<le> 90 then char_of (n + 32) else c)"

text \<open>
  The \<open>LIKE\<close> operator on case-folded operands: \<open>%\<close> in the pattern matches any run of
  characters, \<open>_\<close> any single one.
\<close>

fun like :: "string \<Rightarrow> string \<Rightarrow> bool" where
  "like [] [] = True"
| "like [] (c # cs) = False"
| "like (p # ps) [] = (p = CHR ''%'' \<and> like ps [])"
| "like (p # ps) (c # cs) =
     (if p = CHR ''%'' then like ps (c # cs) \<or> like (p # ps) cs
      else (p = CHR ''_'' \<or> p = c) \<and> like ps cs)"

text \<open>\<open>column.ilike(pattern)\<close>, which SQLAlchemy renders as \<open>lower(column) LIKE lower(pattern)\<close>.\<close>

definition ilike :: "string \<Rightarrow> string \<Rightarrow> bool" where
  "ilike column pattern = like (map sql_lower_char pattern) (map sql_lower_char column)"

section \<open>Queries\<close>

text \<open>
  The mapped columns of \<open>Post\<close>, and what \<open>getattr(Post, sort_by, Post.published_at)\<close>
  finds under a name: a column, one of the four Python properties \<open>upvotes\<close>,
  \<open>downvotes\<close>, \<open>vote_score\<close> and \<open>comment_count\<close>, or the default when the name is no
  attribute of the class.
\<close>

datatype post_column =
  Col_id | Col_title | Col_body | Col_author | Col_author_id
  | Col_published_at | Col_updated_at | Col_is_published

datatype post_attr = Column post_column | Property

definition getattr_Post :: "string \<Rightarrow> post_attr \<Rightarrow> post_attr" where
  "getattr_Post name dflt =
     (if name = ''id'' then Column Col_id
      else if name = ''title'' then Column Col_title
      else if name = ''body'' then Column Col_body
      else if name = ''author'' then Column Col_author
      else if name = ''author_id'' then Column Col_author_id
      else if name = ''published_at'' then Column Col_published_at
      else if name = ''updated_at'' then Column Col_updated_at
      else if name = ''is_published'' then Column Col_is_published
      else if name \<in> set [''upvotes'', ''downvotes'', ''vote_score'', ''comment_count'']
        then Property
      else dflt)"

text \<open>
  What \<open>sort_column\<close> holds when it reaches \<open>order_by\<close>: the attribute itself, or the
  descending ordering that \<open>.desc()\<close> made of a column. A property has no method
  \<open>desc\<close>: the call raises \<open>AttributeError\<close>.
\<close>

datatype sort_expr = Attr post_attr | Desc post_column

definition desc :: "post_attr \<Rightarrow> exn + sort_expr" where
  "desc sort_column =
     (case sort_column of Column c \<Rightarrow> Inr (Desc c) | Property \<Rightarrow> Inl AttributeError)"

text \<open>
  The order of two rows under a column: integers and timestamps by value, strings byte
  by byte (the \<open>BINARY\<close> collation), \<open>NULL\<close> before every value, false before true.
\<close>

fun post_le :: "post_column \<Rightarrow> post \<Rightarrow> post \<Rightarrow> bool" where
  "post_le Col_id a b = (p_id a \<le> p_id b)"
| "post_le Col_title a b = (p_title a \<le> p_title b)"
| "post_le Col_body a b = (p_body a \<le> p_body b)"
| "post_le Col_author a b = (p_author a \<le> p_author b)"
| "post_le Col_author_id a b = (p_author_id a \<le> p_author_id b)"
| "post_le Col_published_at a b = (p_published_at a \<le> p_published_at b)"
| "post_le Col_updated_at a b = (p_updated_at a \<le> p_updated_at b)"
| "post_le Col_is_published a b = (p_is_published a \<le> p_is_published b)"

text \<open>
  Sorting by insertion; rows that compare equal keep the order of the table, which is
  the order SQLite returns them in when nothing else is asked.
\<close>

fun insort_by :: "('a \<Rightarrow> 'a \<Rightarrow> bool) \<Rightarrow> 'a \<Rightarrow> 'a list \<Rightarrow> 'a list" where
  "insort_by le x [] = [x]"
| "insort_by le x (y # ys) = (if le x y then x # y # ys else y # insort_by le x ys)"

definition sort_rows :: "('a \<Rightarrow> 'a \<Rightarrow> bool) \<Rightarrow> 'a list \<Rightarrow> 'a list" where
  "sort_rows le xs = foldr (insort_by le) xs []"

text \<open>
  \<open>query.order_by(sort_column)\<close>: anything but a column or an ordering of one is refused
  with \<open>ArgumentError\<close>.
\<close>

definition order_by :: "post list \<Rightarrow> sort_expr \<Rightarrow> exn + post list" where
  "order_by rows sort_column =
     (case sort_column of
        Attr (Column c) \<Rightarrow> Inr (sort_rows (post_le c) rows)
      | Desc c \<Rightarrow> Inr (sort_rows (\<lambda>a b. post_le c b a) rows)
      | Attr Property \<Rightarrow> Inl ArgumentError)"

text \<open>
  The \<open>Pagination\<close> object of \<open>query.paginate(page=page, per_page=per_page,
  error_out=False)\<close> in Flask-SQLAlchemy: a page below 1 becomes 1, a page size below
  1 becomes 20, and the items are the rows from offset \<open>(page - 1) * per_page\<close> on, at
  most \<open>per_page\<close> of them.
\<close>

record 'a pagination =
  pg_items :: "'a list"
  pg_page :: int
  pg_per_page :: int
  pg_total :: int

definition paginate :: "'a list \<Rightarrow> int \<Rightarrow> int \<Rightarrow> 'a pagination" where
  "paginate rows page per_page =
     (let page = (if page < 1 then 1 else page);
          per_page = (if per_page < 1 then 20 else per_page)
      in \<lparr>pg_items = take (nat per_page) (drop (nat ((page - 1) * per_page)) rows),
          pg_page = page, pg_per_page = per_page, pg_total = int (length rows)\<rparr>)"

section \<open>PostService (App/services.py)\<close>

text \<open>
  \<open>create_post\<close>: the three strings are stripped; \<open>published_at\<close>, \<open>updated_at\<close> and
  \<open>is_published\<close> take their column defaults.
\<close>

definition create_post ::
  "int \<Rightarrow> store \<Rightarrow> string \<Rightarrow> string \<Rightarrow> string \<Rightarrow> int option \<Rightarrow> (error + post) \<times> store" where
  "create_post now s title body author author_id =
     (let post = \<lparr>p_id = fresh_id (map p_id (posts s)), p_title = strip title,
                  p_body = strip body, p_author = strip author, p_author_id = author_id,
                  p_published_at = now, p_updated_at = now, p_is_published = Some True\<rparr>
      in (Inr post, s\<lparr>posts := posts s @ [post]\<rparr>))"

definition get_post_by_id :: "store \<Rightarrow> int \<Rightarrow> error + post" where
  "get_post_by_id s post_id =
     (case query_get_post s post_id of
        None \<Rightarrow> Inl (Msg ''Post not found'')
      | Some post \<Rightarrow> Inr post)"

text \<open>
  \<open>get_all_posts\<close>; the defaults of the source are \<open>page=1\<close>, \<open>per_page=10\<close>,
  \<open>sort_by='published_at'\<close> and \<open>order='desc'\<close>. An exception raised on the way is
  caught and returned as its text.
\<close>

definition get_all_posts ::
  "store \<Rightarrow> int \<Rightarrow> int \<Rightarrow> string \<Rightarrow> string \<Rightarrow> error + post pagination" where
  "get_all_posts s page per_page sort_by order =
     (let sort_column = getattr_Post sort_by (Column Col_published_at);
          sort_column = (if lower order = ''desc'' then desc sort_column
                         else Inr (Attr sort_column))
      in case sort_column of
           Inl e \<Rightarrow> Inl (Str_of e)
         | Inr sort_column \<Rightarrow>
             (case order_by (filter (\<lambda>p. p_is_published p = Some True) (posts s)) sort_column of
                Inl e \<Rightarrow> Inl (Str_of e)
              | Inr rows \<Rightarrow> Inr (paginate rows page per_page)))"

text \<open>
  \<open>search_posts\<close>; \<open>query\<close> is a string or \<open>None\<close>, and \<open>not query\<close> holds of \<open>None\<close> and
  of the empty string.
\<close>

definition search_posts ::
  "store \<Rightarrow> string option \<Rightarrow> int \<Rightarrow> int \<Rightarrow> error + post pagination" where
  "search_posts s query page per_page =
     (case query of
        None \<Rightarrow> get_all_posts s page per_page ''published_at'' ''desc''
      | Some q \<Rightarrow>
          if q = [] \<or> strip q = []
          then get_all_posts s page per_page ''published_at'' ''desc''
          else
            (let search_term = ''%'' @ strip q @ ''%''
             in case order_by
                      (filter (\<lambda>p. p_is_published p = Some True \<and>
                                    (ilike (p_title p) search_term \<or> ilike (p_body p) search_term))
                         (posts s))
                      (Desc Col_published_at) of
                  Inl e \<Rightarrow> Inl (Str_of e)
                | Inr rows \<Rightarrow> Inr (paginate rows page per_page)))"

text \<open>
  \<open>update_post\<close>: \<open>if title:\<close> holds of a string that is not empty, \<open>if author_id:\<close>
  of an integer that is not zero; \<open>None\<close> fails both.
\<close>

definition update_post ::
  "int \<Rightarrow> store \<Rightarrow> int \<Rightarrow> string option \<Rightarrow> string option \<Rightarrow> int option
     \<Rightarrow> (error + post) \<times> store" where
  "update_post now s post_id title body author_id =
     (case query_get_post s post_id of
        None \<Rightarrow> (Inl (Msg ''Post not found''), s)
      | Some post \<Rightarrow>
          (let post = (case title of
                         Some t \<Rightarrow> if t \<noteq> [] then post\<lparr>p_title := strip t\<rparr> else post
                       | None \<Rightarrow> post);
               post = (case body of
                         Some b \<Rightarrow> if b \<noteq> [] then post\<lparr>p_body := strip b\<rparr> else post
                       | None \<Rightarrow> post);
               post = (case author_id of
                         Some a \<Rightarrow> if a \<noteq> 0 then post\<lparr>p_author_id := Some a\<rparr> else post
                       | None \<Rightarrow> post);
               post = post\<lparr>p_updated_at := now\<rparr>
           in (Inr post, s\<lparr>posts := map (\<lambda>p. if p_id p = post_id then post else p) (posts s)\<rparr>)))"

text \<open>
  \<open>delete_post\<close>: \<open>Inr ()\<close> is \<open>(True, None)\<close>, \<open>Inl e\<close> is \<open>(False, e)\<close>. Deleting the
  post deletes its votes and comments with it (\<open>cascade='all, delete-orphan'\<close>).
\<close>

definition delete_post :: "store \<Rightarrow> int \<Rightarrow> int option \<Rightarrow> (error + unit) \<times> store" where
  "delete_post s post_id author_id =
     (case query_get_post s post_id of
        None \<Rightarrow> (Inl (Msg ''Post not found''), s)
      | Some post \<Rightarrow>
          if (case author_id of Some a \<Rightarrow> a \<noteq> 0 | None \<Rightarrow> False) \<and> p_author_id post \<noteq> author_id
          then (Inl (Msg ''Unauthorized to delete this post''), s)
          else (Inr (),
                s\<lparr>posts := filter (\<lambda>p. p_id p \<noteq> p_id post) (posts s),
                  votes := filter (\<lambda>v. v_post_id v \<noteq> p_id post) (votes s),
                  comments := filter (\<lambda>c. c_post_id c \<noteq> p_id post) (comments s)\<rparr>))"


section \<open>UserService (App/services.py)\<close>

text \<open>
  \<open>generate_password_hash\<close> and \<open>check_password_hash\<close> are bcrypt's (flask_bcrypt);
  the services are parametrised by them. \<open>create_user\<close>: the unique indexes on
  \<open>username\<close> and \<open>email\<close> reject a second row with the same value, and the message names
  the column the database reports (the username when both collide).
\<close>

definition create_user ::
  "(string \<Rightarrow> string) \<Rightarrow> int \<Rightarrow> store \<Rightarrow> string \<Rightarrow> string \<Rightarrow> string \<Rightarrow> (error + user) \<times> store" where
  "create_user generate_password_hash now s username email password =
     (let user = \<lparr>u_id = fresh_id (map u_id (users s)), u_username = strip username,
                  u_email = strip email, u_password_hash = generate_password_hash password,
                  u_created_at = now, u_is_active = Some True\<rparr>
      in if find (\<lambda>u. u_username u = u_username user) (users s) \<noteq> None
         then (Inl (Msg ''Username already exists''), s)
         else if find (\<lambda>u. u_email u = u_email user) (users s) \<noteq> None
         then (Inl (Msg ''Email already exists''), s)
         else (Inr user, s\<lparr>users := users s @ [user]\<rparr>))"


definition get_user_by_id :: "store \<Rightarrow> int \<Rightarrow> error + user" where
  "get_user_by_id s user_id =
     (case find (\<lambda>u. u_id u = user_id) (users s) of
        None \<Rightarrow> Inl (Msg ''User not found'')
      | Some user \<Rightarrow> Inr user)"

section \<open>CommentService (App/services.py)\<close>

definition create_comment ::
  "int \<Rightarrow> store \<Rightarrow> string \<Rightarrow> int \<Rightarrow> int \<Rightarrow> (error + comment) \<times> store" where
  "create_comment now s content author_id post_id =
     (case query_get_post s post_id of
        None \<Rightarrow> (Inl (Msg ''Post not found''), s)
      | Some post \<Rightarrow>
          (let comment = \<lparr>c_id = fresh_id (map c_id (comments s)), c_content = strip content,
                          c_author_id = author_id, c_post_id = post_id, c_created_at = now,
                          c_updated_at = now, c_is_active = Some True\<rparr>
           in (Inr comment, s\<lparr>comments := comments s @ [comment]\<rparr>)))"

definition get_post_comments :: "store \<Rightarrow> int \<Rightarrow> int \<Rightarrow> int \<Rightarrow> error + comment pagination" where
  "get_post_comments s post_id page per_page =
     Inr (paginate
            (sort_rows (\<lambda>a b. c_created_at b \<le> c_created_at a)
               (filter (\<lambda>c. c_post_id c = post_id \<and> c_is_active c = Some True) (comments s)))
            page per_page)"

section \<open>The DELETE endpoint (App/routes.py)\<close>

text \<open>
  \<open>delete_post\<close> of the routing layer, behind \<open>jwt_required_custom\<close>: it passes the id of
  the authenticated user to the service and answers with the HTTP status.
\<close>

definition route_delete_post :: "store \<Rightarrow> user \<Rightarrow> int \<Rightarrow> int \<times> store" where
  "route_delete_post s current_user post_id =
     (case delete_post s post_id (Some (u_id current_user)) of
        (Inr success, s') \<Rightarrow> (200, s')
      | (Inl error, s') \<Rightarrow>
          if error = Msg ''Post not found'' then (404, s') else (403, s'))"

section \<open>The system as a sequence of calls\<close>

text \<open>
  The operations that write to the store, each with the clock of its call; the store
  starts with its four tables empty.
\<close>

datatype call =
  Vote_post int int bool
  | Create_post string string string "int option"
  | Update_post int "string option" "string option" "int option"
  | Delete_post int "int option"
  | Create_user string string string
  | Create_comment string int int

fun apply_call :: "(string \<Rightarrow> string) \<Rightarrow> store \<Rightarrow> int \<times> call \<Rightarrow> store" where
  "apply_call h s (now, Vote_post user_id post_id vote_type) =
     snd (vote_post now s user_id post_id vote_type)"
| "apply_call h s (now, Create_post title body author author_id) =
     snd (create_post now s title body author author_id)"
| "apply_call h s (now, Update_post post_id title body author_id) =
     snd (update_post now s post_id title body author_id)"
| "apply_call h s (now, Delete_post post_id author_id) =
     snd (delete_post s post_id author_id)"
| "apply_call h s (now, Create_user username email password) =
     snd (create_user h now s username email password)"
| "apply_call h s (now, Create_comment content author_id post_id) =
     snd (create_comment now s content author_id post_id)"

definition empty_store :: store where
  "empty_store = \<lparr>users = [], posts = [], votes = [], comments = []\<rparr>"

definition run_calls :: "(string \<Rightarrow> string) \<Rightarrow> (int \<times> call) list \<Rightarrow> store" where
  "run_calls h calls = foldl (apply_call h) empty_store calls"

section \<open>Properties of a store\<close>

text \<open>The vote state of a user on a post: no vote, upvoted (true) or downvoted.\<close>

definition user_vote :: "store \<Rightarrow> int \<Rightarrow> int \<Rightarrow> bool option" where
  "user_vote s user_id post_id = map_option v_vote_type (first_vote s user_id post_id)"

text \<open>At most one \<open>Vote\<close> row for each pair \<open>(user_id, post_id)\<close>.\<close>

definition votes_unique :: "store \<Rightarrow> bool" where
  "votes_unique s = distinct (map (\<lambda>v. (v_user_id v, v_post_id v)) (votes s))"

text \<open>The primary keys of the tables \<open>votes\<close> and \<open>posts\<close>.\<close>

definition votes_pk :: "store \<Rightarrow> bool" where
  "votes_pk s = distinct (map v_id (votes s))"

definition posts_pk :: "store \<Rightarrow> bool" where
  "posts_pk s = distinct (map p_id (posts s))"

text \<open>A query that is empty or blank: absent, or made of whitespace only.\<close>

definition blank_query :: "string option \<Rightarrow> bool" where
  "blank_query query = (case query of None \<Rightarrow> True | Some q \<Rightarrow> list_all is_space q)"


section \<open>Example stores\<close>

definition example_post :: post where
  "example_post = \<lparr>p_id = 1, p_title = ''Toggle Vote Post'', p_body = ''Testing vote toggling.'',
     p_author = ''Test Author'', p_author_id = Some 7, p_published_at = 100,
     p_updated_at = 100, p_is_published = Some True\<rparr>"

definition example_vote :: vote where
  "example_vote = \<lparr>v_id = 1, v_user_id = 7, v_post_id = 1, v_vote_type = True, v_created_at = 200\<rparr>"

definition store_posted :: store where
  "store_posted = \<lparr>users = [], posts = [example_post], votes = [], comments = []\<rparr>"

definition store_upvoted :: store where
  "store_upvoted = \<lparr>users = [], posts = [example_post], votes = [example_vote], comments = []\<rparr>"

definition example_draft :: post where
  "example_draft = \<lparr>p_id = 2, p_title = ''Draft'', p_body = ''Not yet published.'',
     p_author = ''Test Author'', p_author_id = None, p_published_at = 150,
     p_updated_at = 150, p_is_published = Some False\<rparr>"

definition store_draft :: store where
  "store_draft = \<lparr>users = [], posts = [example_post, example_draft], votes = [], comments = []\<rparr>"

definition example_alice :: user where
  "example_alice = \<lparr>u_id = 7, u_username = ''alice'', u_email = ''alice@example.com'',
     u_password_hash = ''hash-of-secret'', u_created_at = 10, u_is_active = Some True\<rparr>"




section \<open>Lists, keys and fresh identifiers\<close>

lemma fold_max_ge: "(x::int) \<le> fold max xs x"
proof (induction xs arbitrary: x)
  case Nil then show ?case by simp
next
  case (Cons a xs)
  have "x \<le> max a x" by simp
  also have "\<dots> \<le> fold max xs (max a x)" by (rule Cons.IH)
  finally show ?case by simp
qed

lemma fold_max_mem: "(y::int) \<in> set xs \<Longrightarrow> y \<le> fold max xs x"
proof (induction xs arbitrary: x)
  case Nil then show ?case by simp
next
  case (Cons a xs)
  show ?case
  proof (cases "y = a")
    case True
    have "a \<le> max a x" by simp
    also have "\<dots> \<le> fold max xs (max a x)" by (rule fold_max_ge)
    finally show ?thesis using True by simp
  next
    case False
    then show ?thesis using Cons by simp
  qed
qed

lemma fresh_id_gt: "y \<in> set ids \<Longrightarrow> y < fresh_id ids"
  using fold_max_mem[of y ids 0] by (simp add: fresh_id_def)

lemma fresh_id_notin: "fresh_id ids \<notin> set ids"
  using fresh_id_gt by blast

lemma find_append_last:
  "find P (xs @ [x]) = (case find P xs of Some y \<Rightarrow> Some y | None \<Rightarrow> if P x then Some x else None)"
  by (induction xs) auto

lemma find_SomeD: "find P xs = Some e \<Longrightarrow> e \<in> set xs \<and> P e"
  by (induction xs) (auto split: if_splits)

lemma distinct_map_eq: "distinct (map k xs) \<Longrightarrow> x \<in> set xs \<Longrightarrow> y \<in> set xs \<Longrightarrow> k x = k y \<Longrightarrow> x = y"
  by (meson distinct_map inj_onD)

lemma filter_pk_remove1:
  "distinct (map k xs) \<Longrightarrow> e \<in> set xs \<Longrightarrow> filter (\<lambda>v. k v \<noteq> k e) xs = remove1 e xs"
proof (induction xs)
  case Nil then show ?case by simp
next
  case (Cons a xs)
  show ?case
  proof (cases "a = e")
    case True
    have "\<forall>v\<in>set xs. k v \<noteq> k e" using Cons.prems(1) True by (auto simp: image_iff)
    then have "filter (\<lambda>v. k v \<noteq> k e) xs = xs" by (simp add: filter_id_conv)
    then show ?thesis using True by simp
  next
    case False
    then have "e \<in> set xs" using Cons.prems by simp
    moreover have "k a \<noteq> k e" using Cons.prems(1) \<open>e \<in> set xs\<close> by (auto simp: image_iff)
    ultimately show ?thesis using Cons False by simp
  qed
qed

lemma map_pk_update:
  "distinct (map k xs) \<Longrightarrow> e \<in> set xs \<Longrightarrow>
   map (\<lambda>v. if k v = k e then f v else v) xs = map (\<lambda>v. if v = e then f e else v) xs"
  by (rule map_cong) (auto dest: distinct_map_eq)

lemma find_remove1_unique:
  assumes "distinct (map k xs)" "find (\<lambda>v. k v = a) xs = Some e"
  shows "find (\<lambda>v. k v = a) (remove1 e xs) = None"
proof -
  have e: "e \<in> set xs" "k e = a" using find_SomeD[OF assms(2)] by auto
  have "distinct xs" using assms(1) by (simp add: distinct_map)
  { fix v assume v: "v \<in> set (remove1 e xs)" "k v = a"
    then have "v \<in> set xs" "v \<noteq> e" using \<open>distinct xs\<close> by auto
    then have False using distinct_map_eq[OF assms(1) _ e(1), of v] v e by auto }
  then show ?thesis by (auto simp: find_None_iff)
qed

lemma find_map_same_key:
  assumes "\<And>v. P (f v) = P v"
  shows "find P (map f xs) = map_option f (find P xs)"
  using assms by (induction xs) auto

section \<open>The vote state machine\<close>

lemma first_vote_mem:
  "first_vote s user_id post_id = Some e \<Longrightarrow>
   e \<in> set (votes s) \<and> v_user_id e = user_id \<and> v_post_id e = post_id"
  unfolding first_vote_def by (drule find_SomeD) simp

lemma query_get_post_mem:
  "query_get_post s post_id = Some post \<Longrightarrow> post \<in> set (posts s) \<and> p_id post = post_id"
  unfolding query_get_post_def by (drule find_SomeD) simp

lemma delete_vote_remove1:
  "votes_pk s \<Longrightarrow> e \<in> set (votes s) \<Longrightarrow> delete_vote s e = s\<lparr>votes := remove1 e (votes s)\<rparr>"
  by (simp add: delete_vote_def votes_pk_def filter_pk_remove1)

lemma set_vote_type_in_place:
  "votes_pk s \<Longrightarrow> e \<in> set (votes s) \<Longrightarrow>
   set_vote_type s e vote_type =
     s\<lparr>votes := map (\<lambda>v. if v = e then e\<lparr>v_vote_type := vote_type\<rparr> else v) (votes s)\<rparr>"
  using map_pk_update[of v_id "votes s" e "\<lambda>v. v\<lparr>v_vote_type := vote_type\<rparr>"]
  by (simp add: set_vote_type_def votes_pk_def)

lemma vote_post_not_found:
  "query_get_post s post_id = None \<Longrightarrow>
   vote_post now s user_id post_id vote_type = (Inl (Msg ''Post not found''), s)"
  by (simp add: vote_post_def)

lemma vote_post_added:
  assumes "query_get_post s post_id = Some post" "first_vote s user_id post_id = None"
  shows "vote_post now s user_id post_id vote_type =
     (let s' = s\<lparr>votes := votes s @
                  [\<lparr>v_id = fresh_id (map v_id (votes s)), v_user_id = user_id,
                    v_post_id = post_id, v_vote_type = vote_type, v_created_at = now\<rparr>]\<rparr>
      in (Inr ((to_dict s' post)\<lparr>d_vote_action := Some ''added''\<rparr>), s'))"
  using assms by (simp add: vote_post_def insert_vote_def Let_def)

lemma vote_post_removed:
  assumes "query_get_post s post_id = Some post" "first_vote s user_id post_id = Some e"
    "v_vote_type e = vote_type"
  shows "vote_post now s user_id post_id vote_type =
     (let s' = delete_vote s e
      in (Inr ((to_dict s' post)\<lparr>d_vote_action := Some ''removed''\<rparr>), s'))"
  using assms by (simp add: vote_post_def Let_def)

lemma vote_post_updated:
  assumes "query_get_post s post_id = Some post" "first_vote s user_id post_id = Some e"
    "v_vote_type e \<noteq> vote_type"
  shows "vote_post now s user_id post_id vote_type =
     (let s' = set_vote_type s e vote_type
      in (Inr ((to_dict s' post)\<lparr>d_vote_action := Some ''updated''\<rparr>), s'))"
  using assms by (simp add: vote_post_def Let_def)

lemma user_vote_added:
  "first_vote s user_id post_id = None \<Longrightarrow>
   user_vote (s\<lparr>votes := votes s @
       [\<lparr>v_id = i, v_user_id = user_id, v_post_id = post_id,
         v_vote_type = vote_type, v_created_at = now\<rparr>]\<rparr>) user_id post_id = Some vote_type"
  by (simp add: user_vote_def first_vote_def find_append_last)

lemma user_vote_removed:
  assumes "votes_unique s" "votes_pk s" "first_vote s user_id post_id = Some e"
  shows "user_vote (delete_vote s e) user_id post_id = None"
proof -
  have mem: "e \<in> set (votes s)" using assms(3) by (simp add: first_vote_mem)
  have "find (\<lambda>v. (v_user_id v, v_post_id v) = (user_id, post_id)) (votes s) = Some e"
    using assms(3) by (simp add: first_vote_def)
  with assms(1)
  have "find (\<lambda>v. (v_user_id v, v_post_id v) = (user_id, post_id)) (remove1 e (votes s)) = None"
    unfolding votes_unique_def by (rule find_remove1_unique)
  then show ?thesis
    by (simp add: delete_vote_remove1[OF assms(2) mem] user_vote_def first_vote_def)
qed

lemma user_vote_updated:
  assumes "first_vote s user_id post_id = Some e"
  shows "user_vote (set_vote_type s e vote_type) user_id post_id = Some vote_type"
proof -
  let ?f = "\<lambda>v. if v_id v = v_id e then v\<lparr>v_vote_type := vote_type\<rparr> else v"
  have "find (\<lambda>v. v_user_id v = user_id \<and> v_post_id v = post_id) (map ?f (votes s))
        = map_option ?f (find (\<lambda>v. v_user_id v = user_id \<and> v_post_id v = post_id) (votes s))"
    by (rule find_map_same_key) simp
  then show ?thesis
    using assms by (simp add: user_vote_def first_vote_def set_vote_type_def)
qed

text \<open>The result of one call on the vote state of the caller.\<close>

lemma vote_post_user_vote:
  assumes "votes_unique s" "votes_pk s" "query_get_post s post_id = Some post"
  shows "user_vote (snd (vote_post now s user_id post_id vote_type)) user_id post_id =
           (if user_vote s user_id post_id = Some vote_type then None else Some vote_type)"
proof (cases "first_vote s user_id post_id")
  case None
  then show ?thesis
    using assms(3) by (simp add: vote_post_added Let_def user_vote_added) (simp add: user_vote_def)
next
  case (Some e)
  show ?thesis
  proof (cases "v_vote_type e = vote_type")
    case True
    then show ?thesis
      using assms Some by (simp add: vote_post_removed Let_def user_vote_removed) (simp add: user_vote_def)
  next
    case False
    then show ?thesis
      using assms Some by (simp add: vote_post_updated Let_def user_vote_updated) (simp add: user_vote_def)
  qed
qed

subsection \<open>The constraints of the votes table are kept\<close>

lemma votes_unique_insert:
  assumes "votes_unique s" "insert_vote now s user_id post_id vote_type = Some s'"
  shows "votes_unique s'"
proof -
  have n: "first_vote s user_id post_id = None"
    using assms(2) by (auto simp: insert_vote_def split: if_splits)
  then have "(user_id, post_id) \<notin> set (map (\<lambda>v. (v_user_id v, v_post_id v)) (votes s))"
    by (auto simp: first_vote_def find_None_iff)
  then show ?thesis
    using assms n by (auto simp: insert_vote_def votes_unique_def)
qed

lemma votes_unique_delete: "votes_unique s \<Longrightarrow> votes_unique (delete_vote s e)"
  by (simp add: votes_unique_def delete_vote_def distinct_map_filter)

lemma votes_unique_set_type: "votes_unique s \<Longrightarrow> votes_unique (set_vote_type s e vote_type)"
proof -
  have "map (\<lambda>v. (v_user_id v, v_post_id v))
          (map (\<lambda>v. if v_id v = v_id e then v\<lparr>v_vote_type := vote_type\<rparr> else v) (votes s))
        = map (\<lambda>v. (v_user_id v, v_post_id v)) (votes s)"
    by (simp add: comp_def if_distrib cong: if_cong)
  then show "votes_unique s \<Longrightarrow> votes_unique (set_vote_type s e vote_type)"
    by (simp add: votes_unique_def set_vote_type_def del: map_map)
qed

lemma votes_unique_vote_post:
  "votes_unique s \<Longrightarrow> votes_unique (snd (vote_post now s user_id post_id vote_type))"
  by (auto simp: vote_post_def Let_def votes_unique_delete votes_unique_set_type
      intro: votes_unique_insert split: option.splits)

lemma fresh_id_map_neq: "x \<in> set xs \<Longrightarrow> fresh_id (map f xs) \<noteq> f x"
  using fresh_id_gt[of "f x" "map f xs"] by auto

lemma votes_pk_vote_post:
  "votes_pk s \<Longrightarrow> votes_pk (snd (vote_post now s user_id post_id vote_type))"
proof -
  have m: "map v_id (map (\<lambda>v. if v_id v = i then v\<lparr>v_vote_type := vote_type\<rparr> else v) (votes s))
        = map v_id (votes s)" for i
    by (simp add: comp_def if_distrib cong: if_cong)
  assume "votes_pk s"
  then show ?thesis
    using m
    by (auto simp: vote_post_def Let_def votes_pk_def insert_vote_def delete_vote_def
        set_vote_type_def distinct_map_filter simp del: map_map
        dest: fresh_id_map_neq[of _ _ v_id] split: option.splits)
qed

lemma posts_vote_post: "posts (snd (vote_post now s user_id post_id vote_type)) = posts s"
  by (auto simp: vote_post_def Let_def insert_vote_def delete_vote_def set_vote_type_def
      split: option.splits if_splits)

lemma votes_unique_delete_post:
  "votes_unique s \<Longrightarrow> votes_unique (snd (delete_post s post_id author_id))"
  by (auto simp: delete_post_def votes_unique_def distinct_map_filter split: option.splits)

lemma votes_create_post: "votes (snd (create_post now s title body author author_id)) = votes s"
  by (simp add: create_post_def Let_def)

lemma votes_update_post: "votes (snd (update_post now s post_id title body author_id)) = votes s"
  by (simp add: update_post_def Let_def split: option.splits)

lemma votes_create_user: "votes (snd (create_user h now s username email password)) = votes s"
  by (simp add: create_user_def Let_def)

lemma votes_create_comment: "votes (snd (create_comment now s content author_id post_id)) = votes s"
  by (simp add: create_comment_def Let_def split: option.splits)

lemma votes_unique_cong: "votes s' = votes s \<Longrightarrow> votes_unique s' = votes_unique s"
  by (simp add: votes_unique_def)

lemma votes_unique_apply_call: "votes_unique s \<Longrightarrow> votes_unique (apply_call h s (now, c))"
proof (cases c)
  case (Vote_post user_id post_id vote_type)
  assume "votes_unique s" then show ?thesis using Vote_post by (simp add: votes_unique_vote_post)
next
  case (Create_post title body author author_id)
  assume "votes_unique s" then show ?thesis
    using Create_post votes_unique_cong[OF votes_create_post] by simp
next
  case (Update_post post_id title body author_id)
  assume "votes_unique s" then show ?thesis
    using Update_post votes_unique_cong[OF votes_update_post] by simp
next
  case (Delete_post post_id author_id)
  assume "votes_unique s" then show ?thesis using Delete_post by (simp add: votes_unique_delete_post)
next
  case (Create_user username email password)
  assume "votes_unique s" then show ?thesis
    using Create_user votes_unique_cong[OF votes_create_user] by simp
next
  case (Create_comment content author_id post_id)
  assume "votes_unique s" then show ?thesis
    using Create_comment votes_unique_cong[OF votes_create_comment] by simp
qed

lemma votes_unique_foldl:
  "votes_unique s \<Longrightarrow> votes_unique (foldl (apply_call h) s calls)"
proof (induction calls arbitrary: s)
  case Nil then show ?case by simp
next
  case (Cons c calls)
  obtain now k where c: "c = (now, k)" by (cases c)
  show ?case using Cons c by (simp add: votes_unique_apply_call)
qed

lemma distinct_key_count:
  "distinct (map k xs) \<Longrightarrow> length (filter (\<lambda>v. k v = a) xs) \<le> 1"
proof (induction xs)
  case Nil then show ?case by simp
next
  case (Cons x xs)
  show ?case
  proof (cases "k x = a")
    case True
    then have "\<forall>v\<in>set xs. k v \<noteq> a" using Cons.prems by (auto simp: image_iff)
    then have "filter (\<lambda>v. k v = a) xs = []" by (simp add: filter_empty_conv)
    then show ?thesis using True by simp
  next
    case False
    then show ?thesis using Cons by simp
  qed
qed

lemma votes_unique_count:
  "votes_unique s \<Longrightarrow>
   length (filter (\<lambda>v. v_user_id v = user_id \<and> v_post_id v = post_id) (votes s)) \<le> 1"
  using distinct_key_count[of "\<lambda>v. (v_user_id v, v_post_id v)" "votes s" "(user_id, post_id)"]
  by (simp add: votes_unique_def)

subsection \<open>The transition table\<close>





subsection \<open>One vote for each user and post\<close>

text \<open>
  C2. Every store that the system reaches from the empty store by any sequence of its
  writing calls (vote, create, update, delete) holds at most one \<open>Vote\<close> row for each
  pair \<open>(user_id, post_id)\<close>, and each single call keeps that property from whatever
  store it starts in that has it.
\<close>

theorem one_vote_per_user_and_post:
  "votes_unique (run_calls h calls) \<and>
   length (filter (\<lambda>v. v_user_id v = user_id \<and> v_post_id v = post_id)
             (votes (run_calls h calls))) \<le> 1 \<and>
   (votes_unique s \<longrightarrow> votes_unique (apply_call h s (now, c)))"
proof -
  have "votes_unique empty_store" by (simp add: votes_unique_def empty_store_def)
  then have r: "votes_unique (run_calls h calls)"
    unfolding run_calls_def by (rule votes_unique_foldl)
  show ?thesis
    using r votes_unique_count[OF r] by (simp add: votes_unique_apply_call)
qed

theorem one_vote_per_user_and_post_witness:
  "votes_unique store_upvoted \<and>
   votes_unique (apply_call (\<lambda>p. p) store_upvoted (300, Vote_post 8 1 False)) \<and>
   votes_unique (run_calls (\<lambda>p. p)
     [(100, Create_post ''Title'' ''Body of the post'' ''Author'' (Some 7)),
      (200, Vote_post 7 1 True), (300, Vote_post 7 1 False)])"
  using one_vote_per_user_and_post [of "\<lambda>p. p"
      "[(100, Create_post ''Title'' ''Body of the post'' ''Author'' (Some 7)),
        (200, Vote_post 7 1 True), (300, Vote_post 7 1 False)]" 7 1
      store_upvoted 300 "Vote_post 8 1 False"]
  by (simp add: votes_unique_def store_upvoted_def)

subsection \<open>Voting twice with the same type\<close>

text \<open>
  C3, as amended. Two calls of \<open>vote_post\<close> in a row by the same user on the same existing
  post with the same vote type end in the no-vote state when the user started with no
  vote or with a vote of the other type; when the user started with a vote of that same
  type, the first call removes it and the second adds it again, so the user ends with a
  vote of that type.
\<close>

theorem vote_twice_same_type:
  assumes "votes_unique s" "votes_pk s" "query_get_post s post_id = Some post"
  shows "user_vote (snd (vote_post now' (snd (vote_post now s user_id post_id vote_type))
                      user_id post_id vote_type)) user_id post_id =
           (if user_vote s user_id post_id = Some vote_type then Some vote_type else None)"
proof -
  let ?s1 = "snd (vote_post now s user_id post_id vote_type)"
  have uq: "votes_unique ?s1" using assms(1) by (rule votes_unique_vote_post)
  have pk: "votes_pk ?s1" using assms(2) by (rule votes_pk_vote_post)
  have p: "query_get_post ?s1 post_id = Some post"
    using assms(3) by (simp add: query_get_post_def posts_vote_post)
  show ?thesis
    by (simp add: vote_post_user_vote[OF uq pk p] vote_post_user_vote[OF assms])
qed

theorem vote_twice_same_type_witness:
  "votes_unique store_posted \<and> votes_pk store_posted \<and>
   query_get_post store_posted 1 = Some example_post \<and>
   user_vote store_posted 7 1 = None \<and>
   user_vote (snd (vote_post 300 (snd (vote_post 200 store_posted 7 1 True)) 7 1 True)) 7 1 = None"
proof -
  have uq: "votes_unique store_posted" by (simp add: votes_unique_def store_posted_def)
  have pk: "votes_pk store_posted" by (simp add: votes_pk_def store_posted_def)
  have p: "query_get_post store_posted 1 = Some example_post"
    by (simp add: query_get_post_def store_posted_def example_post_def)
  have n: "user_vote store_posted 7 1 = None"
    by (simp add: user_vote_def first_vote_def store_posted_def)
  show ?thesis
    using vote_twice_same_type [OF uq pk p, of 300 200 7 True] uq pk p n by simp
qed

text \<open>
  C3 as stated fails from the upvoted state: after two upvotes the user has an upvote.
\<close>

theorem vote_twice_same_type_counterexample:
  "votes_unique store_upvoted \<and> votes_pk store_upvoted \<and>
   query_get_post store_upvoted 1 = Some example_post \<and>
   user_vote store_upvoted 7 1 = Some True \<and>
   user_vote (snd (vote_post 400 (snd (vote_post 300 store_upvoted 7 1 True)) 7 1 True)) 7 1
     = Some True"
  by (simp add: votes_unique_def votes_pk_def query_get_post_def user_vote_def first_vote_def
      vote_post_def insert_vote_def delete_vote_def set_vote_type_def Let_def fresh_id_def
      store_upvoted_def example_post_def example_vote_def)

subsection \<open>An upvote followed by a downvote\<close>

lemma first_vote_added:
  "first_vote s user_id post_id = None \<Longrightarrow>
   first_vote (s\<lparr>votes := votes s @
       [\<lparr>v_id = i, v_user_id = user_id, v_post_id = post_id,
         v_vote_type = vote_type, v_created_at = now\<rparr>]\<rparr>) user_id post_id =
     Some \<lparr>v_id = i, v_user_id = user_id, v_post_id = post_id,
           v_vote_type = vote_type, v_created_at = now\<rparr>"
  by (simp add: first_vote_def find_append_last)

lemma set_vote_type_last:
  "set_vote_type (s\<lparr>votes := votes s @ [e]\<rparr>) e vote_type =
     s\<lparr>votes := map (\<lambda>v. if v_id v = v_id e then v\<lparr>v_vote_type := vote_type\<rparr> else v) (votes s)
                  @ [e\<lparr>v_vote_type := vote_type\<rparr>]\<rparr>"
  by (simp add: set_vote_type_def)

lemma map_fresh_id:
  "map (\<lambda>v. if f v = fresh_id (map f xs) then g v else v) xs = xs"
  by (rule map_idI) (auto dest: fresh_id_map_neq[of _ _ f])

lemma upvote_then_downvote_stores:
  assumes p: "query_get_post s post_id = Some post" and n: "first_vote s user_id post_id = None"
  shows "snd (vote_post now s user_id post_id True) =
           s\<lparr>votes := votes s @
               [\<lparr>v_id = fresh_id (map v_id (votes s)), v_user_id = user_id,
                 v_post_id = post_id, v_vote_type = True, v_created_at = now\<rparr>]\<rparr>"
    and "snd (vote_post now' (snd (vote_post now s user_id post_id True)) user_id post_id False) =
           s\<lparr>votes := votes s @
               [\<lparr>v_id = fresh_id (map v_id (votes s)), v_user_id = user_id,
                 v_post_id = post_id, v_vote_type = False, v_created_at = now\<rparr>]\<rparr>"
proof -
  let ?e = "\<lparr>v_id = fresh_id (map v_id (votes s)), v_user_id = user_id,
             v_post_id = post_id, v_vote_type = True, v_created_at = now\<rparr>"
  let ?s1 = "s\<lparr>votes := votes s @ [?e]\<rparr>"
  show 1: "snd (vote_post now s user_id post_id True) = ?s1"
    using p n by (simp add: vote_post_added Let_def)
  have p1: "query_get_post ?s1 post_id = Some post" using p by (simp add: query_get_post_def)
  have e1: "first_vote ?s1 user_id post_id = Some ?e" using n by (rule first_vote_added)
  have "snd (vote_post now' ?s1 user_id post_id False) = set_vote_type ?s1 ?e False"
    using vote_post_updated[OF p1 e1, of False now'] by (simp add: Let_def)
  also have "\<dots> = s\<lparr>votes := votes s @ [?e\<lparr>v_vote_type := False\<rparr>]\<rparr>"
    using map_fresh_id[of v_id "votes s" "\<lambda>v. v\<lparr>v_vote_type := False\<rparr>"]
    by (simp add: set_vote_type_last)
  finally show "snd (vote_post now' (snd (vote_post now s user_id post_id True)) user_id post_id False) =
           s\<lparr>votes := votes s @
               [\<lparr>v_id = fresh_id (map v_id (votes s)), v_user_id = user_id,
                 v_post_id = post_id, v_vote_type = False, v_created_at = now\<rparr>]\<rparr>"
    using 1 by simp
qed

lemma vote_post_returns_score:
  "query_get_post s post_id = Some post \<Longrightarrow>
   \<exists>d. fst (vote_post now s user_id post_id vote_type) = Inr d \<and>
       d_vote_score d = vote_score (snd (vote_post now s user_id post_id vote_type)) post"
  by (auto simp: vote_post_def Let_def insert_vote_def to_dict_def split: option.splits)

text \<open>
  C4, as amended. When a user with no vote on an existing post upvotes it and then
  downvotes it, the net score of the post rises by 1 and then falls by 2: the downvote
  moves the score by exactly -2 relative to the score after the upvote, which is -1
  relative to the score before the upvote. Both calls return the new score. When no
  vote exists on the post at the start, the score goes from 0 to 1 to -1.
\<close>

theorem upvote_then_downvote_score:
  assumes p: "query_get_post s post_id = Some post" and n: "first_vote s user_id post_id = None"
  shows "(let s1 = snd (vote_post now s user_id post_id True);
              s2 = snd (vote_post now' s1 user_id post_id False)
          in vote_score s1 post = vote_score s post + 1 \<and>
             vote_score s2 post = vote_score s1 post - 2 \<and>
             vote_score s2 post = vote_score s post - 1 \<and>
             map_sum id d_vote_score (fst (vote_post now s user_id post_id True)) =
               Inr (vote_score s post + 1) \<and>
             map_sum id d_vote_score (fst (vote_post now' s1 user_id post_id False)) =
               Inr (vote_score s post - 1) \<and>
             (filter (\<lambda>v. v_post_id v = post_id) (votes s) = [] \<longrightarrow>
                vote_score s post = 0 \<and> vote_score s1 post = 1 \<and> vote_score s2 post = -1))"
proof -
  have i: "p_id post = post_id" using p by (simp add: query_get_post_mem)
  have z: "vote_score s post = 0" if "filter (\<lambda>v. v_post_id v = post_id) (votes s) = []"
  proof -
    have "\<forall>v\<in>set (votes s). v_post_id v \<noteq> post_id" using that by (simp add: filter_empty_conv)
    then have "filter (\<lambda>v. v_post_id v = p_id post \<and> v_vote_type v) (votes s) = []"
      "filter (\<lambda>v. v_post_id v = p_id post \<and> \<not> v_vote_type v) (votes s) = []"
      using i by (simp_all add: filter_empty_conv)
    then show ?thesis by (simp add: vote_score_def upvotes_def downvotes_def)
  qed
  let ?s1 = "snd (vote_post now s user_id post_id True)"
  let ?s2 = "snd (vote_post now' ?s1 user_id post_id False)"
  note st = upvote_then_downvote_stores[OF p n]
  have 1: "vote_score ?s1 post = vote_score s post + 1"
    using i by (simp add: st(1) vote_score_def upvotes_def downvotes_def)
  have 2: "vote_score ?s2 post = vote_score s post - 1"
    using i by (simp add: st(2) vote_score_def upvotes_def downvotes_def)
  have p1: "query_get_post ?s1 post_id = Some post"
    using p by (simp add: query_get_post_def posts_vote_post)
  obtain d1 where d1: "fst (vote_post now s user_id post_id True) = Inr d1"
    "d_vote_score d1 = vote_score ?s1 post"
    using vote_post_returns_score[OF p] by blast
  obtain d2 where d2: "fst (vote_post now' ?s1 user_id post_id False) = Inr d2"
    "d_vote_score d2 = vote_score ?s2 post"
    using vote_post_returns_score[OF p1] by blast
  show ?thesis
    using 1 2 z d1 d2 by (simp add: Let_def)
qed

theorem upvote_then_downvote_score_witness:
  "query_get_post store_posted 1 = Some example_post \<and>
   first_vote store_posted 7 1 = None \<and>
   filter (\<lambda>v. v_post_id v = 1) (votes store_posted) = [] \<and>
   vote_score store_posted example_post = 0 \<and>
   vote_score (snd (vote_post 200 store_posted 7 1 True)) example_post = 1 \<and>
   vote_score (snd (vote_post 300 (snd (vote_post 200 store_posted 7 1 True)) 7 1 False))
     example_post = - 1"
proof -
  have p: "query_get_post store_posted 1 = Some example_post"
    by (simp add: query_get_post_def store_posted_def example_post_def)
  have n: "first_vote store_posted 7 1 = None"
    by (simp add: first_vote_def store_posted_def)
  have f: "filter (\<lambda>v. v_post_id v = 1) (votes store_posted) = []"
    by (simp add: store_posted_def)
  show ?thesis
    using upvote_then_downvote_score [OF p n, of 200 300] p n f by (simp add: Let_def)
qed

text \<open>
  C4 as stated fails: with no vote on the post at the start, the score after the
  downvote differs from the score before the upvote by -1, not by -2.
\<close>

theorem upvote_then_downvote_score_counterexample:
  "query_get_post store_posted 1 = Some example_post \<and>
   votes store_posted = [] \<and>
   vote_score (snd (vote_post 300 (snd (vote_post 200 store_posted 7 1 True)) 7 1 False))
     example_post - vote_score store_posted example_post \<noteq> - 2"
  by (simp add: query_get_post_def first_vote_def vote_post_def insert_vote_def
      set_vote_type_def Let_def fresh_id_def vote_score_def upvotes_def downvotes_def
      store_posted_def example_post_def)

section \<open>Posts\<close>

subsection \<open>Partial update\<close>

lemma find_map_replace:
  "find (\<lambda>p. k p = a) xs = Some x \<Longrightarrow> k y = a \<Longrightarrow>
   find (\<lambda>p. k p = a) (map (\<lambda>p. if k p = a then y else p) xs) = Some y"
  by (induction xs) (auto split: if_splits)

lemma query_get_post_replaced:
  "query_get_post s post_id = Some post \<Longrightarrow> p_id post' = post_id \<Longrightarrow>
   query_get_post (s\<lparr>posts := map (\<lambda>p. if p_id p = post_id then post' else p) (posts s)\<rparr>) post_id
     = Some post'"
  unfolding query_get_post_def by (simp add: find_map_replace)

lemma strip_blank:
  assumes "list_all is_space t"
  shows "strip t = []"
proof -
  have "dropWhile is_space t = []" using assms by (induction t) simp_all
  then have "strip t = rev (dropWhile is_space (rev []))"
    unfolding strip_def by (simp only:)
  then show ?thesis by simp
qed

text \<open>
  C5, as amended. \<open>update_post\<close> on an existing post is a partial update: a title or
  body that is omitted, \<open>None\<close> or the empty string is ignored and the stored value is
  left as it was, and so is an \<open>author_id\<close> that is omitted, \<open>None\<close> or 0; a title or
  body that is given and not empty is stored stripped of surrounding whitespace. So an
  update with only a title leaves the body unchanged, and no field is cleared by passing
  the empty string, but a value made of whitespace only is stored as the empty string.
  The author name, the publication time, the published flag and the id never change;
  \<open>updated_at\<close> is always set to the time of the call.
\<close>

theorem update_post_partial:
  assumes "query_get_post s post_id = Some post"
  shows "\<exists>post'. update_post now s post_id title body author_id =
             (Inr post', s\<lparr>posts := map (\<lambda>p. if p_id p = post_id then post' else p) (posts s)\<rparr>) \<and>
           query_get_post (snd (update_post now s post_id title body author_id)) post_id = Some post' \<and>
           p_title post' = (if title = None \<or> title = Some [] then p_title post else strip (the title)) \<and>
           p_body post' = (if body = None \<or> body = Some [] then p_body post else strip (the body)) \<and>
           p_author_id post' =
             (if author_id = None \<or> author_id = Some 0 then p_author_id post else author_id) \<and>
           p_updated_at post' = now \<and>
           p_id post' = p_id post \<and> p_author post' = p_author post \<and>
           p_published_at post' = p_published_at post \<and> p_is_published post' = p_is_published post"
proof -
  have i: "p_id post = post_id" using assms by (simp add: query_get_post_mem)
  show ?thesis
    using assms i
    by (cases title; cases body; cases author_id)
      (simp_all add: update_post_def Let_def query_get_post_replaced)
qed

theorem update_post_partial_witness:
  "query_get_post store_posted 1 = Some example_post \<and>
   update_post 500 store_posted 1 (Some ''X'') None None =
     (Inr (example_post\<lparr>p_title := ''X'', p_updated_at := 500\<rparr>),
      store_posted\<lparr>posts := [example_post\<lparr>p_title := ''X'', p_updated_at := 500\<rparr>]\<rparr>)"
proof -
  have p: "query_get_post store_posted 1 = Some example_post"
    by (simp add: query_get_post_def store_posted_def example_post_def)
  obtain post' where
    u: "update_post 500 store_posted 1 (Some ''X'') None None =
           (Inr post', store_posted\<lparr>posts := map (\<lambda>p. if p_id p = 1 then post' else p)
                                              (posts store_posted)\<rparr>)"
    and f: "p_title post' = strip ''X''" "p_body post' = p_body example_post"
      "p_author_id post' = p_author_id example_post" "p_updated_at post' = 500"
      "p_id post' = p_id example_post" "p_author post' = p_author example_post"
      "p_published_at post' = p_published_at example_post"
      "p_is_published post' = p_is_published example_post"
    using update_post_partial [OF p, of 500 "Some ''X''" None None] by auto
  have "post' = example_post\<lparr>p_title := ''X'', p_updated_at := 500\<rparr>"
    using f by (simp add: strip_def is_space_def example_post_def)
  then show ?thesis
    using u p by (simp add: store_posted_def example_post_def)
qed

text \<open>
  C5 as stated fails: a title of three spaces clears the stored title to the empty
  string.
\<close>

theorem update_post_partial_counterexample:
  "query_get_post store_posted 1 = Some example_post \<and>
   p_title example_post \<noteq> [] \<and>
   map_option p_title
     (query_get_post (snd (update_post 500 store_posted 1 (Some ''   '') None None)) 1) = Some []"
  by (simp add: query_get_post_def update_post_def Let_def strip_def is_space_def
      store_posted_def example_post_def)

subsection \<open>Listing and searching\<close>

lemma lower_desc: "lower ''desc'' = ''desc''"
  by (simp add: lower_def lower_char_def)

lemma getattr_published_at: "getattr_Post ''published_at'' d = Column Col_published_at"
  by (simp add: getattr_Post_def)

lemma getattr_title: "getattr_Post ''title'' d = Column Col_title"
  by (simp add: getattr_Post_def)

lemma getattr_vote_score: "getattr_Post ''vote_score'' d = Property"
  by (simp add: getattr_Post_def)

lemma lower_asc: "lower ''asc'' = ''asc''"
  by (simp add: lower_def lower_char_def)

lemma get_all_posts_default:
  "get_all_posts s page per_page ''published_at'' ''desc'' =
     Inr (paginate (sort_rows (\<lambda>a b. p_published_at b \<le> p_published_at a)
                      (filter (\<lambda>p. p_is_published p = Some True) (posts s))) page per_page)"
  by (simp add: get_all_posts_def lower_desc getattr_published_at desc_def order_by_def)

lemma set_insort_by: "set (insort_by le x xs) = insert x (set xs)"
  by (induction xs) auto

lemma set_sort_rows: "set (sort_rows le xs) = set xs"
  by (induction xs) (simp_all add: sort_rows_def set_insort_by)

lemma sorted_insort_by:
  assumes tot: "\<And>a b. le a b \<or> le b a" and tr: "\<And>a b c. le a b \<Longrightarrow> le b c \<Longrightarrow> le a c"
  shows "sorted_wrt le xs \<Longrightarrow> sorted_wrt le (insort_by le x xs)"
proof (induction xs)
  case Nil then show ?case by simp
next
  case (Cons y ys)
  show ?case
  proof (cases "le x y")
    case True
    then have "\<forall>z\<in>set ys. le x z" using Cons.prems tr by auto
    then show ?thesis using True Cons.prems by simp
  next
    case False
    then have "le y x" using tot by blast
    then show ?thesis using False Cons by (auto simp: set_insort_by)
  qed
qed

lemma sorted_sort_rows:
  assumes "\<And>a b. le a b \<or> le b a" and "\<And>a b c. le a b \<Longrightarrow> le b c \<Longrightarrow> le a c"
  shows "sorted_wrt le (sort_rows le xs)"
  by (induction xs) (simp_all add: sort_rows_def sorted_insort_by[OF assms])

lemma post_le_total: "post_le c a b \<or> post_le c b a"
  by (cases c) auto

lemma post_le_trans: "post_le c a b \<Longrightarrow> post_le c b d \<Longrightarrow> post_le c a d"
  by (cases c) auto

lemma order_by_column:
  "order_by rows (Attr (Column c)) = Inr (sort_rows (post_le c) rows)"
  "order_by rows (Desc c) = Inr (sort_rows (\<lambda>a b. post_le c b a) rows)"
  by (simp_all add: order_by_def)

lemma set_paginate: "set (pg_items (paginate rows page per_page)) \<subseteq> set rows"
  by (auto simp: paginate_def Let_def dest!: in_set_takeD in_set_dropD)

text \<open>
  What \<open>get_all_posts\<close> returns when \<open>sort_by\<close> names a column, as \<open>published_at\<close> and
  \<open>title\<close> do: the published posts, sorted by that column in the requested order, cut
  to the requested page.
\<close>

lemma get_all_posts_column:
  assumes "getattr_Post sort_by (Column Col_published_at) = Column c"
  shows "(let le = (if lower order = ''desc'' then (\<lambda>a b. post_le c b a) else post_le c);
              rows = sort_rows le (filter (\<lambda>p. p_is_published p = Some True) (posts s))
          in get_all_posts s page per_page sort_by order = Inr (paginate rows page per_page) \<and>
             set rows = {p \<in> set (posts s). p_is_published p = Some True} \<and>
             sorted_wrt le rows)"
proof (cases "lower order = ''desc''")
  case True
  have "sorted_wrt (\<lambda>a b. post_le c b a) (sort_rows (\<lambda>a b. post_le c b a) rows)" for rows
    by (rule sorted_sort_rows) (auto intro: post_le_trans simp: post_le_total)
  then show ?thesis
    using True assms
    by (simp add: get_all_posts_def Let_def desc_def order_by_column set_sort_rows)
next
  case False
  have "sorted_wrt (post_le c) (sort_rows (post_le c) rows)" for rows
    by (rule sorted_sort_rows) (auto intro: post_le_trans simp: post_le_total)
  then show ?thesis
    using False assms
    by (simp add: get_all_posts_def Let_def order_by_column set_sort_rows)
qed

lemma get_all_posts_published:
  assumes "get_all_posts s page per_page sort_by order = Inr pg"
  shows "set (pg_items pg) \<subseteq> {p \<in> set (posts s). p_is_published p = Some True}"
proof -
  from assms show ?thesis
    using set_paginate
    by (fastforce simp: get_all_posts_def Let_def order_by_def desc_def set_sort_rows
        split: sum.splits post_attr.splits sort_expr.splits if_splits)
qed

lemma search_posts_published:
  assumes "search_posts s query page per_page = Inr pg"
  shows "set (pg_items pg) \<subseteq> {p \<in> set (posts s). p_is_published p = Some True}"
proof (cases "query = None \<or> query = Some [] \<or> strip (the query) = []")
  case True
  then have "get_all_posts s page per_page ''published_at'' ''desc'' = Inr pg"
    using assms by (auto simp: search_posts_def split: option.splits)
  then show ?thesis by (rule get_all_posts_published)
next
  case False
  then show ?thesis
    using assms set_paginate
    by (fastforce simp: search_posts_def Let_def order_by_column set_sort_rows
        split: option.splits)
qed

text \<open>
  C6. For every page and page size, \<open>search_posts\<close> with a query that is absent, empty
  or blank returns what \<open>get_all_posts\<close> returns with its default sort: the published
  posts by \<open>published_at\<close> descending, the same items in the same order.
\<close>

theorem search_blank_is_list:
  assumes "blank_query query"
  shows "search_posts s query page per_page =
           get_all_posts s page per_page ''published_at'' ''desc'' \<and>
         search_posts s query page per_page =
           Inr (paginate (sort_rows (\<lambda>a b. p_published_at b \<le> p_published_at a)
                            (filter (\<lambda>p. p_is_published p = Some True) (posts s))) page per_page)"
proof (cases query)
  case None
  then show ?thesis by (simp add: search_posts_def get_all_posts_default)
next
  case (Some q)
  then have "strip q = []" using assms by (simp add: blank_query_def strip_blank)
  then show ?thesis using Some by (simp add: search_posts_def get_all_posts_default)
qed

theorem search_blank_is_list_witness:
  "blank_query (Some ''   '') \<and>
   search_posts store_draft (Some ''   '') 1 10 =
     get_all_posts store_draft 1 10 ''published_at'' ''desc'' \<and>
   search_posts store_draft (Some ''   '') 1 10 =
     Inr \<lparr>pg_items = [example_post], pg_page = 1, pg_per_page = 10, pg_total = 1\<rparr>"
proof -
  have b: "blank_query (Some ''   '')" by (simp add: blank_query_def is_space_def)
  have g: "get_all_posts store_draft 1 10 ''published_at'' ''desc'' =
     Inr \<lparr>pg_items = [example_post], pg_page = 1, pg_per_page = 10, pg_total = 1\<rparr>"
    by (simp add: get_all_posts_default sort_rows_def paginate_def store_draft_def
        example_post_def example_draft_def)
  show ?thesis
    using search_blank_is_list [OF b, of store_draft 1 10] b g by simp
qed

text \<open>
  C7 fails on the code for \<open>sort_by = vote_score\<close>, a value the request schema admits:
  \<open>Post.vote_score\<close> is a Python property, not a column, so \<open>.desc()\<close> raises
  \<open>AttributeError\<close> and \<open>order_by\<close> raises \<open>ArgumentError\<close>; \<open>get_all_posts\<close> returns
  the text of the exception instead of a page, whatever the store, page and page size.
\<close>

theorem get_all_posts_vote_score_fails:
  "get_all_posts s page per_page ''vote_score'' ''desc'' = Inl (Str_of AttributeError) \<and>
   get_all_posts s page per_page ''vote_score'' ''asc'' = Inl (Str_of ArgumentError)"
  by (simp add: get_all_posts_def lower_desc lower_asc getattr_vote_score desc_def order_by_def)

subsection \<open>Unpublished posts\<close>

text \<open>
  C9. A post that exists and is not published is returned by \<open>get_post_by_id\<close>, and no
  page that \<open>get_all_posts\<close> or \<open>search_posts\<close> returns contains it or any row with its
  id, whatever their arguments.
\<close>

theorem unpublished_post_by_id_only:
  assumes "posts_pk s" "query_get_post s post_id = Some post" "p_is_published post \<noteq> Some True"
  shows "get_post_by_id s post_id = Inr post \<and>
         (\<forall>page per_page sort_by order pg.
            get_all_posts s page per_page sort_by order = Inr pg \<longrightarrow>
            post \<notin> set (pg_items pg) \<and> post_id \<notin> p_id ` set (pg_items pg)) \<and>
         (\<forall>query page per_page pg.
            search_posts s query page per_page = Inr pg \<longrightarrow>
            post \<notin> set (pg_items pg) \<and> post_id \<notin> p_id ` set (pg_items pg))"
proof -
  have m: "post \<in> set (posts s)" "p_id post = post_id"
    using assms(2) by (simp_all add: query_get_post_mem)
  have k: "post \<notin> set xs \<and> post_id \<notin> p_id ` set xs"
    if "set xs \<subseteq> {p \<in> set (posts s). p_is_published p = Some True}" for xs
  proof -
    { fix x assume x: "x \<in> set xs" "p_id x = post_id"
      then have "x \<in> set (posts s)" "p_is_published x = Some True" using that by auto
      moreover have "x = post"
        using assms(1) \<open>x \<in> set (posts s)\<close> m x(2) unfolding posts_pk_def
        by (auto dest: distinct_map_eq)
      ultimately have False using assms(3) by simp }
    then show ?thesis using m(2) by blast
  qed
  show ?thesis
    using assms(2) k get_all_posts_published search_posts_published
    by (simp add: get_post_by_id_def)
qed

theorem unpublished_post_by_id_only_witness:
  "posts_pk store_draft \<and> query_get_post store_draft 2 = Some example_draft \<and>
   p_is_published example_draft \<noteq> Some True \<and>
   get_post_by_id store_draft 2 = Inr example_draft \<and>
   get_all_posts store_draft 1 10 ''title'' ''asc'' =
     Inr \<lparr>pg_items = [example_post], pg_page = 1, pg_per_page = 10, pg_total = 1\<rparr> \<and>
   example_draft \<notin> set [example_post] \<and>
   search_posts store_draft (Some ''draft'') 1 10 =
     Inr \<lparr>pg_items = [], pg_page = 1, pg_per_page = 10, pg_total = 0\<rparr>"
proof -
  have pk: "posts_pk store_draft"
    by (simp add: posts_pk_def store_draft_def example_post_def example_draft_def)
  have p: "query_get_post store_draft 2 = Some example_draft"
    by (simp add: query_get_post_def store_draft_def example_post_def example_draft_def)
  have u: "p_is_published example_draft \<noteq> Some True" by (simp add: example_draft_def)
  have l: "get_all_posts store_draft 1 10 ''title'' ''asc'' =
     Inr \<lparr>pg_items = [example_post], pg_page = 1, pg_per_page = 10, pg_total = 1\<rparr>"
    by (simp add: get_all_posts_def getattr_title lower_asc order_by_def sort_rows_def
        paginate_def store_draft_def example_post_def example_draft_def)
  have q: "search_posts store_draft (Some ''draft'') 1 10 =
     Inr \<lparr>pg_items = [], pg_page = 1, pg_per_page = 10, pg_total = 0\<rparr>"
    by (simp add: search_posts_def strip_def is_space_def ilike_def sql_lower_char_def
        order_by_def sort_rows_def paginate_def store_draft_def example_post_def example_draft_def)
  have d: "example_draft \<noteq> example_post" by (simp add: example_post_def example_draft_def)
  show ?thesis
    using unpublished_post_by_id_only [OF pk p u] pk p u l q d by simp
qed

subsection \<open>Deleting a post that has no author\<close>

text \<open>
  C10. When an existing post has no \<open>author_id\<close>, \<open>delete_post\<close> called with any
  \<open>author_id\<close> other than 0 returns the error \<open>Unauthorized to delete this post\<close> and
  leaves the store as it is. The DELETE endpoint passes the id of the authenticated
  user, so for every user whose id is not 0 it answers 403 and the post stays.
\<close>

theorem delete_post_without_author:
  assumes "query_get_post s post_id = Some post" "p_author_id post = None"
  shows "(author_id \<noteq> 0 \<longrightarrow>
            delete_post s post_id (Some author_id) =
              (Inl (Msg ''Unauthorized to delete this post''), s)) \<and>
         (u_id current_user \<noteq> 0 \<longrightarrow> route_delete_post s current_user post_id = (403, s))"
  using assms by (simp add: delete_post_def route_delete_post_def)

theorem delete_post_without_author_witness:
  "query_get_post store_draft 2 = Some example_draft \<and> p_author_id example_draft = None \<and>
   u_id example_alice \<noteq> 0 \<and>
   delete_post store_draft 2 (Some 7) = (Inl (Msg ''Unauthorized to delete this post''), store_draft) \<and>
   route_delete_post store_draft example_alice 2 = (403, store_draft)"
proof -
  have p: "query_get_post store_draft 2 = Some example_draft"
    by (simp add: query_get_post_def store_draft_def example_post_def example_draft_def)
  have a: "p_author_id example_draft = None" by (simp add: example_draft_def)
  have u: "u_id example_alice = 7" by (simp add: example_alice_def)
  show ?thesis
    using delete_post_without_author [OF p a, of 7 example_alice] p a u by simp
qed

section \<open>Users\<close>




end
